theory Spec2Isabelle
  imports Complex_Main "HOL-Library.Sublist" "HOL-Library.Log_Nat"
begin

section \<open>Python strings\<close>

text \<open>
  A Python \<open>str\<close> is modelled as a \<open>string\<close>: a list of code points below 256.
  On that range the character classes below are the ones of CPython:
  \<open>str.isspace\<close> holds for 9..13, 28..32, 133 and 160, \<open>str.isdigit\<close> for the
  ten ASCII digits and for the superscripts 178, 179 and 185, and \<open>str.lower\<close>
  moves A..Z and 192..222 (215 apart) up by 32.
\<close>

definition isspace :: "char \<Rightarrow> bool" where
  "isspace c =
     (let n = (of_char c :: nat)
      in (9 \<le> n \<and> n \<le> 13) \<or> (28 \<le> n \<and> n \<le> 32) \<or> n = 133 \<or> n = 160)"

definition isdigit :: "char \<Rightarrow> bool" where
  "isdigit c =
     (let n = (of_char c :: nat)
      in (48 \<le> n \<and> n \<le> 57) \<or> n = 178 \<or> n = 179 \<or> n = 185)"

definition lower_char :: "char \<Rightarrow> char" where
  "lower_char c =
     (let n = (of_char c :: nat)
      in if (65 \<le> n \<and> n \<le> 90) \<or> (192 \<le> n \<and> n \<le> 222 \<and> n \<noteq> 215)
         then char_of (n + 32) else c)"

definition lower :: "string \<Rightarrow> string" where
  "lower s = map lower_char s"

text \<open>
  \<open>str.title\<close> is applied by the program to vocabulary entries only, which are ASCII:
  a letter that follows a letter is lowercased, any other letter is uppercased, and
  every other character is kept.
\<close>

definition is_alpha :: "char \<Rightarrow> bool" where
  "is_alpha c =
     (let n = (of_char c :: nat) in (65 \<le> n \<and> n \<le> 90) \<or> (97 \<le> n \<and> n \<le> 122))"

definition upper_char :: "char \<Rightarrow> char" where
  "upper_char c =
     (let n = (of_char c :: nat) in if 97 \<le> n \<and> n \<le> 122 then char_of (n - 32) else c)"

fun title_from :: "bool \<Rightarrow> string \<Rightarrow> string" where
  "title_from previous_is_cased [] = []"
| "title_from previous_is_cased (c # cs) =
     (if previous_is_cased then lower_char c else upper_char c) # title_from (is_alpha c) cs"

definition title :: "string \<Rightarrow> string" where
  "title s = title_from False s"

text \<open>\<open>sub in s\<close> on strings: \<open>sub\<close> occurs in \<open>s\<close> as a contiguous run.\<close>

fun contains :: "string \<Rightarrow> string \<Rightarrow> bool" where
  "contains sub [] = (sub = [])"
| "contains sub (c # cs) = (prefix sub (c # cs) \<or> contains sub cs)"

text \<open>
  A Python \<open>set\<close> of strings is modelled as a duplicate-free list. Python leaves the
  iteration order of a set open; the list fixes one, and no theorem below depends on it.
\<close>

definition py_set :: "string list \<Rightarrow> string list" where
  "py_set xs = remdups xs"

section \<open>Field extraction\<close>

definition skill_keywords :: "string list" where
  "skill_keywords =
    [''python'', ''java'', ''javascript'', ''react'', ''angular'', ''vue'', ''nodejs'',
     ''html'', ''css'', ''sql'', ''mongodb'', ''postgresql'', ''mysql'', ''docker'',
     ''kubernetes'', ''aws'', ''azure'', ''git'', ''linux'', ''spring'', ''django'',
     ''flask'', ''fastapi'', ''rest api'', ''api'', ''microservices'', ''agile'',
     ''machine learning'', ''ai'', ''data science'', ''pandas'', ''numpy'',
     ''tensorflow'', ''pytorch'', ''scikit-learn'', ''excel'', ''powerbi'',
     ''tableau'', ''spark'', ''hadoop'', ''scala'', ''r'', ''matlab'', ''c++'', ''c#'',
     ''php'', ''ruby'', ''go'', ''rust'', ''swift'', ''kotlin'', ''flutter'', ''react native'']"

definition keywords_list :: "string list" where
  "keywords_list =
    [''experience'', ''develop'', ''design'', ''implement'', ''manage'', ''lead'',
     ''create'', ''build'', ''maintain'', ''optimize'', ''analyze'', ''collaborate'',
     ''teamwork'', ''leadership'', ''communication'', ''problem solving'',
     ''project management'', ''agile'', ''scrum'', ''devops'', ''ci/cd'']"

text \<open>The loop of both extractors: the vocabulary entries found in the lowercased text,
  in vocabulary order, each in title case.\<close>

definition found_in :: "string list \<Rightarrow> string \<Rightarrow> string list" where
  "found_in vocabulary text =
     (let text_lower = lower text
      in map title (filter (\<lambda>entry. contains entry text_lower) vocabulary))"

definition extract_skills :: "string \<Rightarrow> string list" where
  "extract_skills text = py_set (found_in skill_keywords text)"

definition extract_keywords :: "string \<Rightarrow> string list" where
  "extract_keywords text = py_set (found_in keywords_list text)"

subsection \<open>Name\<close>

text \<open>\<open>text.split('\n')\<close>: the pieces between line feeds; there is always at least one.\<close>

fun split_on_newline :: "string \<Rightarrow> string list" where
  "split_on_newline [] = [[]]"
| "split_on_newline (c # cs) =
     (if c = CHR 0x0A then [] # split_on_newline cs
      else (case split_on_newline cs of
              [] \<Rightarrow> [[c]]
            | line # lines \<Rightarrow> (c # line) # lines))"

definition strip :: "string \<Rightarrow> string" where
  "strip s = rev (dropWhile isspace (rev (dropWhile isspace s)))"

text \<open>\<open>line.split()\<close>: the maximal runs of characters that are not whitespace. The
  scan keeps the token being read, reversed, in \<open>word\<close>.\<close>

fun tokens_from :: "string \<Rightarrow> string \<Rightarrow> string list" where
  "tokens_from word [] = (if word = [] then [] else [rev word])"
| "tokens_from word (c # cs) =
     (if isspace c
      then (if word = [] then tokens_from [] cs else rev word # tokens_from [] cs)
      else tokens_from (c # word) cs)"

definition split_whitespace :: "string \<Rightarrow> string list" where
  "split_whitespace s = tokens_from [] s"

text \<open>The loop of \<open>extract_name\<close> over the lines it is given; falling out of the loop
  returns the sentinel.\<close>

fun name_loop :: "string list \<Rightarrow> string" where
  "name_loop [] = ''Name not found''"
| "name_loop (l # ls) =
     (let line = strip l
      in if length line > 0 \<and> length (split_whitespace line) \<le> 4
         then (if \<not> list_ex isdigit line \<and> CHR ''@'' \<notin> set line
               then line else name_loop ls)
         else name_loop ls)"

definition extract_name :: "string \<Rightarrow> string" where
  "extract_name text = name_loop (take 5 (split_on_newline text))"

text \<open>What the specification asks of a line for it to be taken as the name.\<close>

definition name_candidate :: "string \<Rightarrow> bool" where
  "name_candidate line \<longleftrightarrow>
     line \<noteq> [] \<and> length (split_whitespace line) \<le> 4
     \<and> (\<forall>c \<in> set line. \<not> isdigit c) \<and> CHR ''@'' \<notin> set line"

section \<open>Suggestions\<close>

text \<open>\<open>sep.join(items)\<close>.\<close>

fun join :: "string \<Rightarrow> string list \<Rightarrow> string" where
  "join sep [] = []"
| "join sep [x] = x"
| "join sep (x # y # ys) = x @ sep @ join sep (y # ys)"

text \<open>The four default suggestions that \<open>generate_suggestions\<close> appends last.\<close>

definition static_tips :: "string list" where
  "static_tips =
    [''Use action verbs like 'developed', 'implemented', 'managed'' @ [CHR 0x27],
     ''Include quantifiable achievements with numbers and percentages'',
     ''Ensure your resume is ATS-friendly with simple formatting'',
     ''Add a skills section with relevant technical skills'']"

text \<open>
  The list \<open>suggestions\<close> as it stands before the default suggestions are appended.
  The two skill sets come as duplicate-free lists; \<open>jd_skills - resume_skills\<close> keeps
  the job skills the resume lacks.
\<close>

definition conditional_suggestions ::
    "int \<Rightarrow> int \<Rightarrow> string list \<Rightarrow> string list \<Rightarrow> string list" where
  "conditional_suggestions skill_match keyword_coverage resume_skills jd_skills =
     (if skill_match < 70
      then (let missing_skills = take 3 (filter (\<lambda>s. s \<notin> set resume_skills) jd_skills)
            in if missing_skills \<noteq> []
               then [''Add these missing skills: '' @ join '', '' missing_skills]
               else [])
      else [])
     @ (if keyword_coverage < 60
        then [''Include more keywords from the job description''] else [])
     @ (if skill_match < 50
        then [''Focus on highlighting relevant technical skills''] else [])
     @ (if keyword_coverage < 50
        then [''Use more industry-specific terminology''] else [])"

definition generate_suggestions ::
    "int \<Rightarrow> int \<Rightarrow> string list \<Rightarrow> string list \<Rightarrow> string list" where
  "generate_suggestions skill_match keyword_coverage resume_skills jd_skills =
     take 6 (conditional_suggestions skill_match keyword_coverage resume_skills jd_skills
             @ static_tips)"

section \<open>Substring search\<close>

lemma contains_sublist: "contains sub s \<longleftrightarrow> sublist sub s"
  by (induction s) (auto simp: sublist_Cons_right)

lemma contains_iff: "contains sub s \<longleftrightarrow> (\<exists>before after. s = before @ sub @ after)"
  by (simp add: contains_sublist sublist_def)


lemma skill_keywords_lower: "k \<in> set skill_keywords \<Longrightarrow> lower k = k"
proof -
  have "\<forall>k \<in> set skill_keywords. lower k = k" by code_simp
  then show "k \<in> set skill_keywords \<Longrightarrow> lower k = k" by blast
qed

lemma keywords_list_lower: "k \<in> set keywords_list \<Longrightarrow> lower k = k"
proof -
  have "\<forall>k \<in> set keywords_list. lower k = k" by code_simp
  then show "k \<in> set keywords_list \<Longrightarrow> lower k = k" by blast
qed

lemma found_in_elem:
  assumes "x \<in> set (found_in vocabulary text)"
  shows "\<exists>k \<in> set vocabulary. x = title k \<and> contains k (lower text)"
  using assms by (auto simp: found_in_def)

section \<open>Skill and keyword extraction\<close>

text \<open>
  The text of claim C2 also holds the letter r (in "React" and "Docker"), and \<open>r\<close> is
  a vocabulary entry: the set \<open>{Python, React, Docker, Api}\<close> is not what
  \<open>extract_skills\<close> returns.
\<close>

theorem extract_skills_example_counterexample:
  "set (extract_skills ''Built APIs using Python and React with Docker'')
     \<noteq> {''Python'', ''React'', ''Docker'', ''Api''}"
  by code_simp

text \<open>
  Claim C2, amended: for the text "Built APIs using Python and React with Docker",
  \<open>extract_skills\<close> returns, as a set, exactly \<open>{Python, React, Docker, Api, R}\<close>.
\<close>

theorem extract_skills_example:
  "set (extract_skills ''Built APIs using Python and React with Docker'')
     = {''Python'', ''React'', ''Docker'', ''Api'', ''R''}"
  by code_simp

text \<open>
  Claim C10: every element returned by \<open>extract_skills\<close> (by \<open>extract_keywords\<close>)
  is the title-cased form of an entry of the skill (keyword) vocabulary whose lowercase
  form occurs as a substring of the lowercased text, and the returned list has no
  duplicates.
\<close>

theorem extracted_entries_from_vocabulary:
  "(\<forall>x \<in> set (extract_skills text). \<exists>k \<in> set skill_keywords.
       x = title k \<and> (\<exists>before after. lower text = before @ lower k @ after))
   \<and> distinct (extract_skills text)
   \<and> (\<forall>x \<in> set (extract_keywords text). \<exists>k \<in> set keywords_list.
       x = title k \<and> (\<exists>before after. lower text = before @ lower k @ after))
   \<and> distinct (extract_keywords text)"
proof (intro conjI ballI)
  fix x assume "x \<in> set (extract_skills text)"
  then have "x \<in> set (found_in skill_keywords text)"
    by (simp add: extract_skills_def py_set_def)
  then obtain k where k: "k \<in> set skill_keywords" "x = title k" "contains k (lower text)"
    using found_in_elem by blast
  from k(3) have "\<exists>before after. lower text = before @ lower k @ after"
    by (simp add: contains_iff skill_keywords_lower [OF k(1)])
  with k show "\<exists>k \<in> set skill_keywords.
       x = title k \<and> (\<exists>before after. lower text = before @ lower k @ after)"
    by blast
next
  fix x assume "x \<in> set (extract_keywords text)"
  then have "x \<in> set (found_in keywords_list text)"
    by (simp add: extract_keywords_def py_set_def)
  then obtain k where k: "k \<in> set keywords_list" "x = title k" "contains k (lower text)"
    using found_in_elem by blast
  from k(3) have "\<exists>before after. lower text = before @ lower k @ after"
    by (simp add: contains_iff keywords_list_lower [OF k(1)])
  with k show "\<exists>k \<in> set keywords_list.
       x = title k \<and> (\<exists>before after. lower text = before @ lower k @ after)"
    by blast
next
  show "distinct (extract_skills text)" by (simp add: extract_skills_def py_set_def)
  show "distinct (extract_keywords text)" by (simp add: extract_keywords_def py_set_def)
qed

theorem extracted_entries_from_vocabulary_witness:
  "''Sql'' \<in> set (extract_skills ''Use SQL daily'')
   \<and> (\<exists>k \<in> set skill_keywords. ''Sql'' = title k
        \<and> (\<exists>before after. lower ''Use SQL daily'' = before @ lower k @ after))
   \<and> ''Scrum'' \<in> set (extract_keywords ''Daily SCRUM'')
   \<and> (\<exists>k \<in> set keywords_list. ''Scrum'' = title k
        \<and> (\<exists>before after. lower ''Daily SCRUM'' = before @ lower k @ after))"
proof -
  have s: "''Sql'' \<in> set (extract_skills ''Use SQL daily'')" by code_simp
  have k: "''Scrum'' \<in> set (extract_keywords ''Daily SCRUM'')" by code_simp
  from s k extracted_entries_from_vocabulary [of "''Use SQL daily''"]
    extracted_entries_from_vocabulary [of "''Daily SCRUM''"]
  show ?thesis by blast
qed

section \<open>Name extraction\<close>

lemma name_loop_step:
  "name_loop (l # ls) = (if name_candidate (strip l) then strip l else name_loop ls)"
  by (auto simp: name_candidate_def Let_def list_ex_iff)

lemma name_loop_first:
  "(\<exists>i < length ls. name_candidate (strip (ls ! i))
        \<and> (\<forall>j < i. \<not> name_candidate (strip (ls ! j)))
        \<and> name_loop ls = strip (ls ! i))
   \<or> ((\<forall>l \<in> set ls. \<not> name_candidate (strip l)) \<and> name_loop ls = ''Name not found'')"
proof (induction ls)
  case Nil
  show ?case by simp
next
  case (Cons l ls)
  show ?case
  proof (cases "name_candidate (strip l)")
    case True
    then have "name_candidate (strip ((l # ls) ! 0))
        \<and> (\<forall>j < 0. \<not> name_candidate (strip ((l # ls) ! j)))
        \<and> name_loop (l # ls) = strip ((l # ls) ! 0)"
      by (simp add: name_loop_step del: name_loop.simps)
    then show ?thesis by blast
  next
    case False
    then have step: "name_loop (l # ls) = name_loop ls"
      by (simp add: name_loop_step del: name_loop.simps)
    from Cons.IH show ?thesis
    proof
      assume "\<exists>i < length ls. name_candidate (strip (ls ! i))
        \<and> (\<forall>j < i. \<not> name_candidate (strip (ls ! j)))
        \<and> name_loop ls = strip (ls ! i)"
      then obtain i where i: "i < length ls" "name_candidate (strip (ls ! i))"
        "\<forall>j < i. \<not> name_candidate (strip (ls ! j))" "name_loop ls = strip (ls ! i)"
        by blast
      have "\<forall>j < Suc i. \<not> name_candidate (strip ((l # ls) ! j))"
      proof (intro allI impI)
        fix j assume "j < Suc i"
        then show "\<not> name_candidate (strip ((l # ls) ! j))"
          using False i(3) by (cases j) auto
      qed
      with i step have "Suc i < length (l # ls)
        \<and> name_candidate (strip ((l # ls) ! Suc i))
        \<and> (\<forall>j < Suc i. \<not> name_candidate (strip ((l # ls) ! j)))
        \<and> name_loop (l # ls) = strip ((l # ls) ! Suc i)"
        by (simp del: name_loop.simps)
      then show ?thesis by blast
    next
      assume "(\<forall>l \<in> set ls. \<not> name_candidate (strip l)) \<and> name_loop ls = ''Name not found''"
      with False step show ?thesis by (simp del: name_loop.simps)
    qed
  qed
qed

text \<open>
  Claim C8: \<open>extract_name\<close> looks at the first 5 lines at most and returns the first
  of them that, once stripped, is non-empty, has at most 4 whitespace-separated tokens,
  no digit and no \<open>@\<close> (the stripped line is what it returns); when none of them
  qualifies it returns "Name not found". For the text
  "Jane Doe\<newline>Software Engineer\<newline>jane@x.com" it returns "Jane Doe".
\<close>

theorem extract_name_first_candidate:
  "(let lines = take 5 (split_on_newline text)
    in (\<exists>i < length lines. name_candidate (strip (lines ! i))
          \<and> (\<forall>j < i. \<not> name_candidate (strip (lines ! j)))
          \<and> extract_name text = strip (lines ! i))
       \<or> ((\<forall>l \<in> set lines. \<not> name_candidate (strip l))
          \<and> extract_name text = ''Name not found''))
   \<and> extract_name ''Jane Doe\<newline>Software Engineer\<newline>jane@x.com'' = ''Jane Doe''"
proof
  show "let lines = take 5 (split_on_newline text)
    in (\<exists>i < length lines. name_candidate (strip (lines ! i))
          \<and> (\<forall>j < i. \<not> name_candidate (strip (lines ! j)))
          \<and> extract_name text = strip (lines ! i))
       \<or> ((\<forall>l \<in> set lines. \<not> name_candidate (strip l))
          \<and> extract_name text = ''Name not found'')"
    unfolding Let_def extract_name_def by (rule name_loop_first)
  show "extract_name ''Jane Doe\<newline>Software Engineer\<newline>jane@x.com'' = ''Jane Doe''"
    by code_simp
qed

theorem extract_name_first_candidate_witness:
  "\<not> name_candidate (strip ''2024 CV'') \<and> name_candidate (strip ''Jane Doe'')
   \<and> extract_name ''2024 CV\<newline>Jane Doe\<newline>jane@x.com'' = ''Jane Doe''"
proof -
  let ?text = "''2024 CV\<newline>Jane Doe\<newline>jane@x.com''"
  let ?lines = "[''2024 CV'', ''Jane Doe'', ''jane@x.com'']"
  have lines: "take 5 (split_on_newline ?text) = ?lines" by code_simp
  have c0: "\<not> name_candidate (strip ''2024 CV'')" by code_simp
  have c1: "name_candidate (strip ''Jane Doe'')" by code_simp
  have s1: "strip ''Jane Doe'' = ''Jane Doe''" by code_simp
  from extract_name_first_candidate [of ?text]
  have "(\<exists>i < length ?lines. name_candidate (strip (?lines ! i))
          \<and> (\<forall>j < i. \<not> name_candidate (strip (?lines ! j)))
          \<and> extract_name ?text = strip (?lines ! i))
       \<or> ((\<forall>l \<in> set ?lines. \<not> name_candidate (strip l))
          \<and> extract_name ?text = ''Name not found'')"
    unfolding Let_def lines by blast
  with c1 obtain i where i: "i < length ?lines" "name_candidate (strip (?lines ! i))"
      "\<forall>j < i. \<not> name_candidate (strip (?lines ! j))"
      "extract_name ?text = strip (?lines ! i)"
    by auto
  from i(1) have "i = 0 \<or> i = 1 \<or> i = 2" by auto
  then have "i = 1"
  proof (elim disjE)
    assume "i = 0"
    with i(2) c0 show ?thesis by simp
  next
    assume "i = 2"
    with i(3) have "(1::nat) < 2 \<longrightarrow> \<not> name_candidate (strip (?lines ! 1))" by blast
    with c1 show ?thesis by simp
  qed
  with i(4) s1 have "extract_name ?text = ''Jane Doe''" by simp
  with c0 c1 show ?thesis by blast
qed

section \<open>Suggestion list\<close>

lemma length_static_tips: "length static_tips = 4"
  by (simp add: static_tips_def)

lemma length_conditional: "length (conditional_suggestions sm kc rs js) \<le> 4"
  by (simp add: conditional_suggestions_def Let_def)

lemma last_tip_not_conditional:
  "static_tips ! 3 \<notin> set (conditional_suggestions sm kc rs js)"
  by (simp add: conditional_suggestions_def Let_def static_tips_def)

lemma static_tips_distinct: "distinct static_tips"
  by (simp add: static_tips_def)

lemma generate_suggestions_length:
  "4 \<le> length (generate_suggestions sm kc rs js) \<and> length (generate_suggestions sm kc rs js) \<le> 6"
  by (auto simp: generate_suggestions_def length_static_tips min_def)

lemma tips_present_if:
  assumes "length c \<le> 2"
  shows "set static_tips \<subseteq> set (take 6 (c @ static_tips))"
proof -
  have "length (c @ static_tips) \<le> 6" using assms by (simp add: length_static_tips)
  then have "take 6 (c @ static_tips) = c @ static_tips" by simp
  then show ?thesis by simp
qed

lemma first_tips_present:
  assumes "length c \<le> 4" and "i < 2"
  shows "static_tips ! i \<in> set (take 6 (c @ static_tips))"
proof -
  have "static_tips ! i = (c @ static_tips) ! (length c + i)" by simp
  moreover have "length c + i < 6" using assms by simp
  moreover have "length c + i < length (c @ static_tips)"
    using assms by (simp add: length_static_tips)
  ultimately have "static_tips ! i = take 6 (c @ static_tips) ! (length c + i)"
    "length c + i < length (take 6 (c @ static_tips))"
    by simp_all
  then show ?thesis by (metis nth_mem)
qed

lemma last_tip_absent:
  assumes "2 < length c" and "static_tips ! 3 \<notin> set c"
  shows "static_tips ! 3 \<notin> set (take 6 (c @ static_tips))"
proof -
  have "take 6 (c @ static_tips) = take 6 c @ take (6 - length c) static_tips" by simp
  moreover have "set (take 6 c) \<subseteq> set c" by (rule set_take_subset)
  moreover have "static_tips ! 3 \<notin> set (take (6 - length c) static_tips)"
  proof -
    have "6 - length c \<le> 3" using assms(1) by simp
    then have "set (take (6 - length c) static_tips) \<subseteq> set (take 3 static_tips)"
      by (rule set_take_subset_set_take)
    moreover have "static_tips ! 3 \<notin> set (take 3 static_tips)"
      by (simp add: static_tips_def)
    ultimately show ?thesis by blast
  qed
  ultimately show ?thesis using assms(2) by auto
qed

text \<open>
  Claim C6 as stated fails: with both scores at 0 and one missing skill, all four
  conditional suggestions fire, and the cut to 6 entries drops the last two default
  suggestions.
\<close>

theorem generate_suggestions_all_tips_counterexample:
  "\<not> (4 \<le> length (generate_suggestions 0 0 [] [''python''])
      \<and> length (generate_suggestions 0 0 [] [''python'']) \<le> 6
      \<and> set static_tips \<subseteq> set (generate_suggestions 0 0 [] [''python'']))"
  by code_simp

text \<open>
  Claim C6, amended: the list returned by \<open>generate_suggestions\<close> has between 4 and 6
  entries; the first two default suggestions are always in it; all four default
  suggestions are in it exactly when at most two conditional suggestions were added
  before them, which is the case whenever \<open>skill_match\<close> and \<open>keyword_coverage\<close> are
  both at least 50.
\<close>

theorem generate_suggestions_tips:
  "4 \<le> length (generate_suggestions sm kc rs js)
   \<and> length (generate_suggestions sm kc rs js) \<le> 6
   \<and> static_tips ! 0 \<in> set (generate_suggestions sm kc rs js)
   \<and> static_tips ! 1 \<in> set (generate_suggestions sm kc rs js)
   \<and> (set static_tips \<subseteq> set (generate_suggestions sm kc rs js)
        \<longleftrightarrow> length (conditional_suggestions sm kc rs js) \<le> 2)
   \<and> (50 \<le> sm \<and> 50 \<le> kc \<longrightarrow> length (conditional_suggestions sm kc rs js) \<le> 2)"
proof (intro conjI)
  let ?c = "conditional_suggestions sm kc rs js"
  show "4 \<le> length (generate_suggestions sm kc rs js)"
    and "length (generate_suggestions sm kc rs js) \<le> 6"
    using generate_suggestions_length by simp_all
  show "static_tips ! 0 \<in> set (generate_suggestions sm kc rs js)"
    unfolding generate_suggestions_def
    by (rule first_tips_present [OF length_conditional]) simp
  show "static_tips ! 1 \<in> set (generate_suggestions sm kc rs js)"
    unfolding generate_suggestions_def
    by (rule first_tips_present [OF length_conditional]) simp
  show "set static_tips \<subseteq> set (generate_suggestions sm kc rs js) \<longleftrightarrow> length ?c \<le> 2"
  proof
    assume all: "set static_tips \<subseteq> set (generate_suggestions sm kc rs js)"
    show "length ?c \<le> 2"
    proof (rule ccontr)
      assume "\<not> length ?c \<le> 2"
      then have "2 < length ?c" by simp
      then have "static_tips ! 3 \<notin> set (take 6 (?c @ static_tips))"
        using last_tip_not_conditional by (rule last_tip_absent)
      moreover have "static_tips ! 3 \<in> set static_tips"
        by (simp add: length_static_tips)
      ultimately show False using all by (auto simp: generate_suggestions_def)
    qed
  next
    assume "length ?c \<le> 2"
    then show "set static_tips \<subseteq> set (generate_suggestions sm kc rs js)"
      unfolding generate_suggestions_def by (rule tips_present_if)
  qed
  show "50 \<le> sm \<and> 50 \<le> kc \<longrightarrow> length ?c \<le> 2"
    by (simp add: conditional_suggestions_def Let_def)
qed

theorem generate_suggestions_tips_witness:
  "(50::int) \<le> 66 \<and> (50::int) \<le> 55
   \<and> length (conditional_suggestions 66 55 [''python''] [''python'', ''docker'']) = 2
   \<and> set static_tips \<subseteq> set (generate_suggestions 66 55 [''python''] [''python'', ''docker''])
   \<and> length (generate_suggestions 66 55 [''python''] [''python'', ''docker'']) = 6"
proof -
  have c: "length (conditional_suggestions 66 55 [''python''] [''python'', ''docker'']) = 2"
    by code_simp
  have l: "length (generate_suggestions 66 55 [''python''] [''python'', ''docker'']) = 6"
    by code_simp
  from generate_suggestions_tips [of 66 55 "[''python'']" "[''python'', ''docker'']"] c l
  show ?thesis by simp
qed

end
